theory Spec2Isabelle
  imports Main "HOL-Library.Word"
begin

section \<open>The context menu of a conversation-tree node\<close>

text \<open>
  The development embeds the handlers of \<^verbatim>\<open>src/components/ContextMenu.tsx\<close>:
  \<^verbatim>\<open>handleActionClick\<close>, \<^verbatim>\<open>handleSend\<close>, \<^verbatim>\<open>editMessage\<close>,
  \<^verbatim>\<open>respondToMessage\<close>, \<^verbatim>\<open>selectBranch\<close> and \<^verbatim>\<open>startSubchat\<close>.
  The handlers are asynchronous and act only through their surroundings: they send
  commands with \<^verbatim>\<open>chrome.runtime.sendMessage\<close>, call the callbacks of the props,
  call the two state setters, log and open a tab. Every such action is recorded, in
  order, in a trace; what the surroundings answer is a parameter of the model. The
  callbacks, the setters, the logger and \<^verbatim>\<open>chrome.tabs.create\<close> are taken to
  return normally; a send may resolve, reject or never settle.
\<close>

subsection \<open>JavaScript strings\<close>

text \<open>
  A JavaScript string is a sequence of 16-bit code units. \<^verbatim>\<open>String.prototype.trim\<close>
  removes from both ends the code units of the ECMAScript productions WhiteSpace and
  LineTerminator, all of which lie in the Basic Multilingual Plane.
\<close>

type_synonym js_string = "16 word list"

definition utf16 :: "string \<Rightarrow> js_string" where
  "utf16 s = map of_char s"

definition is_white_space :: "16 word \<Rightarrow> bool" where
  "is_white_space c \<longleftrightarrow>
     c = 0x0009 \<or> c = 0x000A \<or> c = 0x000B \<or> c = 0x000C \<or> c = 0x000D \<or>
     c = 0x0020 \<or> c = 0x00A0 \<or> c = 0x1680 \<or> (0x2000 \<le> c \<and> c \<le> 0x200A) \<or>
     c = 0x2028 \<or> c = 0x2029 \<or> c = 0x202F \<or> c = 0x205F \<or> c = 0x3000 \<or>
     c = 0xFEFF"

definition trim :: "js_string \<Rightarrow> js_string" where
  "trim s = rev (dropWhile is_white_space (rev (dropWhile is_white_space s)))"

text \<open>
  An optional string is falsy when it is \<^verbatim>\<open>undefined\<close> and when it is the empty
  string; \<^verbatim>\<open>x || ''\<close> is the string itself or the empty string; a template literal
  prints \<^verbatim>\<open>undefined\<close> for an absent value.
\<close>

definition falsy :: "js_string option \<Rightarrow> bool" where
  "falsy x \<longleftrightarrow> (case x of None \<Rightarrow> True | Some s \<Rightarrow> s = [])"

definition or_empty :: "js_string option \<Rightarrow> js_string" where
  "or_empty x = (case x of None \<Rightarrow> [] | Some s \<Rightarrow> s)"

definition template :: "js_string option \<Rightarrow> js_string" where
  "template x = (case x of None \<Rightarrow> utf16 ''undefined'' | Some s \<Rightarrow> s)"

subsection \<open>Props, commands, responses\<close>

text \<open>
  The data fields of \<^verbatim>\<open>ContextMenuProps\<close> that the handlers read. \<^verbatim>\<open>hidden\<close> is
  the truthiness of \<^verbatim>\<open>props.hidden\<close>. The callbacks of the props
  (\<^verbatim>\<open>onNodeClick\<close>, \<^verbatim>\<open>onRefresh\<close>, \<^verbatim>\<open>refreshNodes\<close>) belong to the surroundings.
\<close>

record props =
  role :: "js_string option"
  message :: "js_string option"
  messageId :: "js_string option"
  hidden :: bool
  childrenIds :: "js_string list option"

text \<open>
  The objects given to \<^verbatim>\<open>chrome.runtime.sendMessage\<close>, one constructor for each
  \<^verbatim>\<open>action\<close>, with the fields in the order of the source. A navigation step is
  opaque: the type \<open>'s\<close>.
\<close>

datatype 's command =
    ExecuteSteps "'s list" bool
  | EditMessage "js_string option" js_string bool
  | RespondToMessage "js_string list option" js_string bool
  | CreateSubchat "js_string option"
  | GoToTarget "js_string option"

text \<open>
  A response object: \<open>completed\<close> and \<open>success\<close> are the truthiness of the properties of
  those names (an absent property is falsy).
\<close>

record response =
  completed :: bool
  error :: "js_string option"
  success :: bool
  subchatId :: "js_string option"

datatype js_error =
    ChannelRejected js_string
  | TypeError
  | Error string

text \<open>
  What a send does: its promise resolves with a response object or with
  \<^verbatim>\<open>undefined\<close> (\<open>Resolves None\<close>), it rejects, or it never settles.
\<close>

datatype reply = Resolves "response option" | Rejects js_error | NeverSettles

subsection \<open>Traces, state and surroundings\<close>

datatype logged = Caught js_error | Field "js_string option"

text \<open>
  The events of a run. \<open>SelectBranchCalled\<close> and \<open>SelectBranchSettled\<close> are call
  markers: they stand for no action of the code, only for a call of
  \<^verbatim>\<open>selectBranch\<close> and for the settling of the promise it returned.
\<close>

datatype 's event =
    SelectBranchCalled
  | SelectBranchSettled
  | OnNodeClick js_string
  | Sent "'s command"
  | OnRefresh
  | RefreshNodes
  | Delay nat
  | SetShowInput bool
  | SetInputValue js_string
  | ConsoleError string logged
  | TabsCreate js_string

record ui_state =
  showInput :: bool
  inputValue :: js_string

record 's world =
  ui :: ui_state
  trace :: "'s event list"

text \<open>
  The surroundings answer a send and a call of the planner \<^verbatim>\<open>props.onNodeClick\<close>.
  Both answers may depend on everything that happened before: the first argument is
  the trace at the moment of the call.
\<close>

record 's env =
  sendMessage :: "'s event list \<Rightarrow> 's command \<Rightarrow> reply"
  onNodeClick :: "'s event list \<Rightarrow> js_string \<Rightarrow> 's list option"

text \<open>How the promise of an asynchronous handler ends.\<close>

datatype outcome = Fulfilled | Rejected js_error | Suspended

definition emit :: "'s event \<Rightarrow> 's world \<Rightarrow> 's world" where
  "emit e w = w\<lparr>trace := trace w @ [e]\<rparr>"

definition send :: "'s env \<Rightarrow> 's command \<Rightarrow> 's world \<Rightarrow> reply \<times> 's world" where
  "send env cmd w = (sendMessage env (trace w) cmd, emit (Sent cmd) w)"

definition setShowInput :: "bool \<Rightarrow> 's world \<Rightarrow> 's world" where
  "setShowInput b w = emit (SetShowInput b) (w\<lparr>ui := (ui w)\<lparr>showInput := b\<rparr>\<rparr>)"

definition setInputValue :: "js_string \<Rightarrow> 's world \<Rightarrow> 's world" where
  "setInputValue v w = emit (SetInputValue v) (w\<lparr>ui := (ui w)\<lparr>inputValue := v\<rparr>\<rparr>)"

subsection \<open>The handlers\<close>

text \<open>The two \<^verbatim>\<open>useState\<close> initialisers (lines 6 and 7).\<close>

definition initial_state :: "props \<Rightarrow> ui_state" where
  "initial_state p =
     \<lparr>showInput = False,
      inputValue = (if role p = Some (utf16 ''user'') then or_empty (message p) else [])\<rparr>"

definition handleActionClick :: "props \<Rightarrow> 's world \<Rightarrow> 's world" where
  "handleActionClick p w =
     setShowInput True
       (if role p = Some (utf16 ''user'') then setInputValue (or_empty (message p)) w
        else setInputValue [] w)"

text \<open>
  The body of the \<^verbatim>\<open>try\<close> block of \<^verbatim>\<open>selectBranch\<close> (lines 98 to 112). Reading
  \<^verbatim>\<open>.completed\<close> of \<^verbatim>\<open>undefined\<close> throws a TypeError; the response to
  \<^verbatim>\<open>goToTarget\<close> is awaited and not read.
\<close>

definition selectBranch_try :: "'s env \<Rightarrow> props \<Rightarrow> 's list \<Rightarrow> 's world \<Rightarrow> outcome \<times> 's world" where
  "selectBranch_try env p steps w =
     (let (execReply, w1) = send env (ExecuteSteps steps True) w in
      case execReply of
        NeverSettles \<Rightarrow> (Suspended, w1)
      | Rejects e \<Rightarrow> (Rejected e, w1)
      | Resolves None \<Rightarrow> (Rejected TypeError, w1)
      | Resolves (Some execResponse) \<Rightarrow>
          if \<not> completed execResponse
          then (Rejected (Error ''Background operation did not complete successfully''), w1)
          else
            (let (gotoReply, w2) = send env (GoToTarget (messageId p)) (emit OnRefresh w1) in
             case gotoReply of
               NeverSettles \<Rightarrow> (Suspended, w2)
             | Rejects e \<Rightarrow> (Rejected e, w2)
             | Resolves _ \<Rightarrow> (Fulfilled, w2)))"

text \<open>
  \<^verbatim>\<open>selectBranch\<close> without the call markers (lines 91 to 116). The plan is an array
  or absent; an array is truthy in JavaScript also when it is empty, so
  \<^verbatim>\<open>!steps\<close> holds of the absent plan only.
\<close>

definition selectBranch_body :: "'s env \<Rightarrow> props \<Rightarrow> 's world \<Rightarrow> outcome \<times> 's world" where
  "selectBranch_body env p w =
     (case messageId p of
        None \<Rightarrow> (Fulfilled, w)
      | Some mid \<Rightarrow>
          if mid = [] then (Fulfilled, w)
          else
            (case onNodeClick env (trace w) mid of
               None \<Rightarrow> (Fulfilled, emit (OnNodeClick mid) w)
             | Some steps \<Rightarrow>
                 (let (r, w') = selectBranch_try env p steps (emit (OnNodeClick mid) w) in
                  case r of
                    Rejected e \<Rightarrow>
                      (Fulfilled, emit (ConsoleError ''Error executing steps:'' (Caught e)) w')
                  | _ \<Rightarrow> (r, w'))))"

definition selectBranch :: "'s env \<Rightarrow> props \<Rightarrow> 's world \<Rightarrow> outcome \<times> 's world" where
  "selectBranch env p w =
     (let (r, w') = selectBranch_body env p (emit SelectBranchCalled w) in
      (r, if r = Suspended then w' else emit SelectBranchSettled w'))"

text \<open>
  Both mutators begin with \<^verbatim>\<open>if (props.hidden) { await selectBranch(); }\<close>
  (lines 50 to 52 and 71 to 73).
\<close>

definition ensure_visible :: "'s env \<Rightarrow> props \<Rightarrow> 's world \<Rightarrow> outcome \<times> 's world" where
  "ensure_visible env p w = (if hidden p then selectBranch env p w else (Fulfilled, w))"

text \<open>
  The mutators (lines 49 to 89). \<open>st\<close> is the state of the render whose closure the
  handler is: \<^verbatim>\<open>inputValue\<close> is read from it.
\<close>

definition editMessage :: "'s env \<Rightarrow> props \<Rightarrow> ui_state \<Rightarrow> 's world \<Rightarrow> outcome \<times> 's world" where
  "editMessage env p st w =
     (let (r0, w0) = ensure_visible env p w in
      case r0 of
        Fulfilled \<Rightarrow>
          (let (rep, w1) = send env (EditMessage (messageId p) (inputValue st) True) w0 in
           case rep of
             NeverSettles \<Rightarrow> (Suspended, w1)
           | Rejects e \<Rightarrow> (Rejected e, w1)
           | Resolves None \<Rightarrow> (Rejected TypeError, w1)
           | Resolves (Some response) \<Rightarrow>
               if \<not> completed response
               then (Fulfilled,
                     emit (ConsoleError ''Edit message failed:'' (Field (error response))) w1)
               else (Fulfilled, emit RefreshNodes (emit (Delay 2000) w1)))
      | _ \<Rightarrow> (r0, w0))"

definition respondToMessage :: "'s env \<Rightarrow> props \<Rightarrow> ui_state \<Rightarrow> 's world \<Rightarrow> outcome \<times> 's world" where
  "respondToMessage env p st w =
     (let (r0, w0) = ensure_visible env p w in
      case r0 of
        Fulfilled \<Rightarrow>
          (let (rep, w1) = send env (RespondToMessage (childrenIds p) (inputValue st) True) w0 in
           case rep of
             NeverSettles \<Rightarrow> (Suspended, w1)
           | Rejects e \<Rightarrow> (Rejected e, w1)
           | Resolves None \<Rightarrow> (Rejected TypeError, w1)
           | Resolves (Some response) \<Rightarrow>
               if \<not> completed response
               then (Fulfilled,
                     emit (ConsoleError ''Response message failed:'' (Field (error response))) w1)
               else (Fulfilled, emit RefreshNodes (emit (Delay 2000) w1)))
      | _ \<Rightarrow> (r0, w0))"

text \<open>The role-specific dispatch of \<^verbatim>\<open>handleSend\<close> (lines 37 to 41).\<close>

definition dispatch :: "'s env \<Rightarrow> props \<Rightarrow> ui_state \<Rightarrow> 's world \<Rightarrow> outcome \<times> 's world" where
  "dispatch env p st w =
     (if role p = Some (utf16 ''user'') then editMessage env p st w
      else if role p = Some (utf16 ''assistant'') then respondToMessage env p st w
      else (Fulfilled, w))"

definition handleSend :: "'s env \<Rightarrow> props \<Rightarrow> ui_state \<Rightarrow> 's world \<Rightarrow> outcome \<times> 's world" where
  "handleSend env p st w =
     (if trim (inputValue st) = [] then (Fulfilled, w)
      else
        (let (r1, w1) = selectBranch env p w in
         case r1 of
           Fulfilled \<Rightarrow>
             (let (r2, w2) = dispatch env p st w1 in
              case r2 of
                Fulfilled \<Rightarrow>
                  (Fulfilled, emit RefreshNodes (setInputValue [] (setShowInput False w2)))
              | _ \<Rightarrow> (r2, w2))
         | _ \<Rightarrow> (r1, w1)))"

text \<open>\<^verbatim>\<open>startSubchat\<close> (lines 118 to 134): the \<^verbatim>\<open>try\<close> block, then the whole.\<close>

definition subchat_url :: "props \<Rightarrow> response \<Rightarrow> js_string" where
  "subchat_url p r =
     utf16 ''https://chatgpt.com/?subchat_parent='' @ template (messageId p) @
     utf16 ''&subchat_id='' @ template (subchatId r)"

definition startSubchat_try :: "'s env \<Rightarrow> props \<Rightarrow> 's world \<Rightarrow> outcome \<times> 's world" where
  "startSubchat_try env p w =
     (let (rep, w1) = send env (CreateSubchat (messageId p)) w in
      case rep of
        NeverSettles \<Rightarrow> (Suspended, w1)
      | Rejects e \<Rightarrow> (Rejected e, w1)
      | Resolves None \<Rightarrow> (Rejected TypeError, w1)
      | Resolves (Some response) \<Rightarrow>
          if success response then (Fulfilled, emit (TabsCreate (subchat_url p response)) w1)
          else (Fulfilled, w1))"

definition startSubchat :: "'s env \<Rightarrow> props \<Rightarrow> 's world \<Rightarrow> outcome \<times> 's world" where
  "startSubchat env p w =
     (let (r, w') = startSubchat_try env p w in
      case r of
        Rejected e \<Rightarrow> (Fulfilled, emit (ConsoleError ''Error starting subchat:'' (Caught e)) w')
      | _ \<Rightarrow> (r, w'))"

subsection \<open>Reading a run\<close>

text \<open>
  The events a handler added to the trace, the commands among them, and the part of a
  run before the first mutation command.
\<close>

definition events_of :: "'s world \<Rightarrow> 's world \<Rightarrow> 's event list" where
  "events_of w w' = drop (length (trace w)) (trace w')"

primrec sent :: "'s event list \<Rightarrow> 's command list" where
  "sent [] = []"
| "sent (e # es) = (case e of Sent c \<Rightarrow> c # sent es | _ \<Rightarrow> sent es)"

fun is_mutation :: "'s event \<Rightarrow> bool" where
  "is_mutation (Sent (EditMessage _ _ _)) = True"
| "is_mutation (Sent (RespondToMessage _ _ _)) = True"
| "is_mutation _ = False"

definition before_mutation :: "'s event list \<Rightarrow> 's event list" where
  "before_mutation evs = takeWhile (\<lambda>e. \<not> is_mutation e) evs"

text \<open>The roles for which \<^verbatim>\<open>handleSend\<close> runs a mutator (lines 37 to 41).\<close>

definition has_mutator :: "props \<Rightarrow> bool" where
  "has_mutator p \<longleftrightarrow>
     role p = Some (utf16 ''user'') \<or> role p = Some (utf16 ''assistant'')"

text \<open>A command or a refresh callback, as opposed to a marker, a planner call or a log line.\<close>

fun command_or_refresh :: "'s event \<Rightarrow> bool" where
  "command_or_refresh (Sent _) = True"
| "command_or_refresh OnRefresh = True"
| "command_or_refresh RefreshNodes = True"
| "command_or_refresh _ = False"

text \<open>A reply that resolves with a response object whose \<open>completed\<close> is truthy.\<close>

definition resolves_completed :: "reply \<Rightarrow> bool" where
  "resolves_completed rep \<longleftrightarrow>
     (case rep of Resolves (Some r) \<Rightarrow> completed r | _ \<Rightarrow> False)"

text \<open>
  What a mutator does after its command, by the reply, with the label of its log line.
\<close>

definition after_mutation :: "string \<Rightarrow> reply \<Rightarrow> 's event list" where
  "after_mutation label rep =
     (case rep of
        Resolves (Some r) \<Rightarrow>
          if completed r then [Delay 2000, RefreshNodes]
          else [ConsoleError label (Field (error r))]
      | _ \<Rightarrow> [])"

text \<open>What the \<^verbatim>\<open>catch\<close> of \<^verbatim>\<open>selectBranch\<close> logs for a reply to \<^verbatim>\<open>goToTarget\<close>.\<close>

definition goto_log :: "reply \<Rightarrow> 's event list" where
  "goto_log rep =
     (case rep of
        Rejects e \<Rightarrow> [ConsoleError ''Error executing steps:'' (Caught e)]
      | _ \<Rightarrow> [])"

subsection \<open>Concrete runs\<close>

text \<open>
  Surroundings whose answers depend on the command only, two response objects, a node
  authored by the user, and the state of a menu whose input is open with a draft.
\<close>

definition scripted :: "('s command \<Rightarrow> reply) \<Rightarrow> 's list option \<Rightarrow> 's env" where
  "scripted f plan = \<lparr>sendMessage = (\<lambda>h c. f c), onNodeClick = (\<lambda>h m. plan)\<rparr>"

definition done_response :: response where
  "done_response =
     \<lparr>completed = True, error = None, success = True, subchatId = Some (utf16 ''s1'')\<rparr>"

definition failed_response :: response where
  "failed_response =
     \<lparr>completed = False, error = Some (utf16 ''busy''), success = False, subchatId = None\<rparr>"

definition all_done :: "nat command \<Rightarrow> reply" where
  "all_done c = Resolves (Some done_response)"

definition all_failed :: "nat command \<Rightarrow> reply" where
  "all_failed c = Resolves (Some failed_response)"

definition all_rejected :: "nat command \<Rightarrow> reply" where
  "all_rejected c = Rejects (ChannelRejected (utf16 ''no receiver''))"

fun goto_rejected :: "nat command \<Rightarrow> reply" where
  "goto_rejected (GoToTarget _) = Rejects (ChannelRejected (utf16 ''no receiver''))"
| "goto_rejected _ = Resolves (Some done_response)"

fun mutation_rejected :: "nat command \<Rightarrow> reply" where
  "mutation_rejected (EditMessage _ _ _) = Rejects (ChannelRejected (utf16 ''no receiver''))"
| "mutation_rejected (RespondToMessage _ _ _) = Rejects (ChannelRejected (utf16 ''no receiver''))"
| "mutation_rejected _ = Resolves (Some done_response)"

fun mutation_failed :: "nat command \<Rightarrow> reply" where
  "mutation_failed (EditMessage _ _ _) = Resolves (Some failed_response)"
| "mutation_failed (RespondToMessage _ _ _) = Resolves (Some failed_response)"
| "mutation_failed _ = Resolves (Some done_response)"

definition user_node :: props where
  "user_node =
     \<lparr>role = Some (utf16 ''user''), message = Some (utf16 ''old text''),
      messageId = Some (utf16 ''m1''), hidden = False, childrenIds = Some [utf16 ''m2'']\<rparr>"

definition draft :: ui_state where
  "draft = \<lparr>showInput = True, inputValue = utf16 ''fixed text''\<rparr>"

definition start :: "nat world" where
  "start = \<lparr>ui = draft, trace = []\<rparr>"

definition selected :: "nat world" where
  "selected =
     start\<lparr>trace :=
       [SelectBranchCalled, OnNodeClick (utf16 ''m1''), Sent (ExecuteSteps [7] True), OnRefresh,
        Sent (GoToTarget (Some (utf16 ''m1''))), SelectBranchSettled]\<rparr>"

definition edit_failed :: "nat world" where
  "edit_failed =
     selected\<lparr>trace := trace selected @
       [Sent (EditMessage (Some (utf16 ''m1'')) (utf16 ''fixed text'') True),
        ConsoleError ''Edit message failed:'' (Field (Some (utf16 ''busy'')))]\<rparr>"

section \<open>Auxiliary facts\<close>

subsection \<open>Trimming\<close>

lemma trim_empty_iff: "trim s = [] \<longleftrightarrow> (\<forall>c\<in>set s. is_white_space c)"
proof
  assume "trim s = []"
  then have all: "\<forall>c\<in>set (dropWhile is_white_space s). is_white_space c"
    by (simp add: trim_def)
  have "dropWhile is_white_space s = []"
  proof (rule ccontr)
    assume ne: "dropWhile is_white_space s \<noteq> []"
    then have "\<not> is_white_space (hd (dropWhile is_white_space s))"
      by (rule hd_dropWhile)
    with all ne show False by (simp add: hd_in_set)
  qed
  then show "\<forall>c\<in>set s. is_white_space c"
    by (simp add: dropWhile_eq_Nil_conv)
next
  assume "\<forall>c\<in>set s. is_white_space c"
  then have d: "dropWhile is_white_space s = []"
    by (simp only: dropWhile_eq_Nil_conv)
  show "trim s = []"
    by (simp only: trim_def d rev.simps dropWhile.simps)
qed

subsection \<open>Events of a run\<close>

lemma events_of_self [simp]: "events_of w w = []"
  by (simp add: events_of_def)

lemma events_of_append [simp]: "events_of w (w\<lparr>trace := trace w @ evs\<rparr>) = evs"
  by (simp add: events_of_def)

lemma after_mutation_no_call:
  "count_list (after_mutation label rep) SelectBranchCalled = 0"
  by (simp add: after_mutation_def split: reply.splits option.splits)

subsection \<open>Branch selection\<close>

lemmas sb_defs = selectBranch_def selectBranch_body_def selectBranch_try_def send_def emit_def

lemmas run_defs = handleSend_def dispatch_def editMessage_def respondToMessage_def
  ensure_visible_def sb_defs setShowInput_def setInputValue_def

lemmas fixture_defs = scripted_def done_response_def failed_response_def all_done_def
  all_failed_def all_rejected_def user_node_def draft_def start_def utf16_def

text \<open>\<^verbatim>\<open>selectBranch\<close> never rejects: its \<^verbatim>\<open>catch\<close> takes every error.\<close>

lemma selectBranch_outcome:
  "fst (selectBranch env p w) = Fulfilled \<or> fst (selectBranch env p w) = Suspended"
  by (simp add: sb_defs split: option.splits reply.splits outcome.splits prod.splits)

lemma selectBranch_world:
  "snd (selectBranch env p w) = w\<lparr>trace := trace w @ events_of w (snd (selectBranch env p w))\<rparr>"
  by (simp add: sb_defs events_of_def split: option.splits reply.splits outcome.splits prod.splits)

lemma selectBranch_first:
  "events_of w (snd (selectBranch env p w)) \<noteq> [] \<and>
   hd (events_of w (snd (selectBranch env p w))) = SelectBranchCalled"
  by (simp add: sb_defs events_of_def split: option.splits reply.splits outcome.splits prod.splits)

lemma selectBranch_called:
  "count_list (events_of w (snd (selectBranch env p w))) SelectBranchCalled = 1"
  by (simp add: sb_defs events_of_def split: option.splits reply.splits outcome.splits prod.splits)

lemma selectBranch_settled:
  "count_list (events_of w (snd (selectBranch env p w))) SelectBranchSettled =
     (if fst (selectBranch env p w) = Suspended then 0 else 1)"
  by (simp add: sb_defs events_of_def split: option.splits reply.splits outcome.splits prod.splits)

lemma selectBranch_no_mutation:
  "e \<in> set (events_of w (snd (selectBranch env p w))) \<Longrightarrow> \<not> is_mutation e"
  by (auto simp: sb_defs events_of_def
      split: option.splits reply.splits outcome.splits prod.splits if_splits)

lemma selectBranch_no_full_refresh:
  "e \<in> set (events_of w (snd (selectBranch env p w))) \<Longrightarrow> e \<noteq> RefreshNodes \<and> e \<noteq> Delay n"
  by (auto simp: sb_defs events_of_def
      split: option.splits reply.splits outcome.splits prod.splits if_splits)

text \<open>The run of \<^verbatim>\<open>selectBranch\<close> in which the steps complete and the last send settles.\<close>

lemma selectBranch_completed:
  assumes "messageId p = Some mid" and "mid \<noteq> []"
    and "onNodeClick env (trace w @ [SelectBranchCalled]) mid = Some steps"
    and "resolves_completed
           (sendMessage env (trace w @ [SelectBranchCalled, OnNodeClick mid])
              (ExecuteSteps steps True))"
    and "g = sendMessage env
           (trace w @ [SelectBranchCalled, OnNodeClick mid, Sent (ExecuteSteps steps True),
                       OnRefresh])
           (GoToTarget (Some mid))"
    and "g \<noteq> NeverSettles"
  shows "selectBranch env p w =
     (Fulfilled,
      w\<lparr>trace := trace w @
         [SelectBranchCalled, OnNodeClick mid, Sent (ExecuteSteps steps True), OnRefresh,
          Sent (GoToTarget (Some mid))] @ goto_log g @ [SelectBranchSettled]\<rparr>)"
proof -
  from assms(4) obtain r where
    r: "sendMessage env (trace w @ [SelectBranchCalled, OnNodeClick mid])
          (ExecuteSteps steps True) = Resolves (Some r)" "completed r"
    by (auto simp: resolves_completed_def split: reply.splits option.splits)
  show ?thesis
    using assms(1,2,3,6) r assms(5) [symmetric]
    by (cases g) (simp_all add: sb_defs goto_log_def)
qed

subsection \<open>The precondition of the mutators\<close>

lemma ensure_visible_split:
  assumes "ensure_visible env p w = (r0, w0)"
  obtains E0 where "w0 = w\<lparr>trace := trace w @ E0\<rparr>"
    and "\<forall>e\<in>set E0. \<not> is_mutation e \<and> e \<noteq> RefreshNodes \<and> (\<forall>n. e \<noteq> Delay n)"
    and "count_list E0 SelectBranchCalled = (if hidden p then 1 else 0)"
    and "r0 = Fulfilled \<longrightarrow> count_list E0 SelectBranchSettled = (if hidden p then 1 else 0)"
    and "r0 = Fulfilled \<or> r0 = Suspended"
proof
  show "w0 = w\<lparr>trace := trace w @ events_of w w0\<rparr>"
    using selectBranch_world [of env p w] assms
    by (simp add: ensure_visible_def split: if_splits)
  show "\<forall>e\<in>set (events_of w w0). \<not> is_mutation e \<and> e \<noteq> RefreshNodes \<and> (\<forall>n. e \<noteq> Delay n)"
    using selectBranch_no_mutation [of _ w env p] selectBranch_no_full_refresh [of _ w env p] assms
    by (auto simp: ensure_visible_def split: if_splits)
  show "count_list (events_of w w0) SelectBranchCalled = (if hidden p then 1 else 0)"
    using selectBranch_called [of w env p] assms
    by (auto simp: ensure_visible_def split: if_splits)
  show "r0 = Fulfilled \<longrightarrow>
        count_list (events_of w w0) SelectBranchSettled = (if hidden p then 1 else 0)"
    using selectBranch_settled [of w env p] assms
    by (auto simp: ensure_visible_def split: if_splits)
  show "r0 = Fulfilled \<or> r0 = Suspended"
    using selectBranch_outcome [of env p w] assms
    by (auto simp: ensure_visible_def split: if_splits)
qed

subsection \<open>The mutators and the dispatch\<close>

lemma editMessage_run:
  assumes "ensure_visible env p w = (r0, w0)"
    and "cmd = EditMessage (messageId p) (inputValue st) True"
  shows "editMessage env p st w =
     (if r0 = Fulfilled
      then (case sendMessage env (trace w0) cmd of
              Resolves None \<Rightarrow> Rejected TypeError
            | Resolves (Some r) \<Rightarrow> Fulfilled
            | Rejects e \<Rightarrow> Rejected e
            | NeverSettles \<Rightarrow> Suspended,
            w0\<lparr>trace := trace w0 @ Sent cmd #
               after_mutation ''Edit message failed:'' (sendMessage env (trace w0) cmd)\<rparr>)
      else (r0, w0))"
  using assms
  by (simp add: editMessage_def send_def emit_def after_mutation_def
      split: outcome.splits reply.splits option.splits)

lemma respondToMessage_run:
  assumes "ensure_visible env p w = (r0, w0)"
    and "cmd = RespondToMessage (childrenIds p) (inputValue st) True"
  shows "respondToMessage env p st w =
     (if r0 = Fulfilled
      then (case sendMessage env (trace w0) cmd of
              Resolves None \<Rightarrow> Rejected TypeError
            | Resolves (Some r) \<Rightarrow> Fulfilled
            | Rejects e \<Rightarrow> Rejected e
            | NeverSettles \<Rightarrow> Suspended,
            w0\<lparr>trace := trace w0 @ Sent cmd #
               after_mutation ''Response message failed:'' (sendMessage env (trace w0) cmd)\<rparr>)
      else (r0, w0))"
  using assms
  by (simp add: respondToMessage_def send_def emit_def after_mutation_def
      split: outcome.splits reply.splits option.splits)

text \<open>
  Once its precondition has settled, a mutator returns normally exactly when the send of
  its command resolves with a response object, whatever \<open>completed\<close> is.
\<close>

lemma mutator_returns:
  assumes "ensure_visible env p w = (Fulfilled, w0)"
  shows "fst (editMessage env p st w) = Fulfilled \<longleftrightarrow>
           (\<exists>r. sendMessage env (trace w0) (EditMessage (messageId p) (inputValue st) True) =
                  Resolves (Some r))"
    and "fst (respondToMessage env p st w) = Fulfilled \<longleftrightarrow>
           (\<exists>r. sendMessage env (trace w0)
                  (RespondToMessage (childrenIds p) (inputValue st) True) = Resolves (Some r))"
  by (auto simp: editMessage_run [OF assms refl] respondToMessage_run [OF assms refl]
      split: reply.splits option.splits)

lemma editMessage_events:
  assumes "ensure_visible env p w = (r0, w0)"
  shows "snd (editMessage env p st w) =
     w\<lparr>trace := trace w @ events_of w w0 @
        (if r0 = Fulfilled
         then Sent (EditMessage (messageId p) (inputValue st) True) #
              after_mutation ''Edit message failed:''
                (sendMessage env (trace w0) (EditMessage (messageId p) (inputValue st) True))
         else [])\<rparr>"
proof -
  from assms obtain E0 where "w0 = w\<lparr>trace := trace w @ E0\<rparr>"
    by (rule ensure_visible_split)
  then show ?thesis
    by (simp add: editMessage_run [OF assms refl])
qed

lemma respondToMessage_events:
  assumes "ensure_visible env p w = (r0, w0)"
  shows "snd (respondToMessage env p st w) =
     w\<lparr>trace := trace w @ events_of w w0 @
        (if r0 = Fulfilled
         then Sent (RespondToMessage (childrenIds p) (inputValue st) True) #
              after_mutation ''Response message failed:''
                (sendMessage env (trace w0)
                   (RespondToMessage (childrenIds p) (inputValue st) True))
         else [])\<rparr>"
proof -
  from assms obtain E0 where "w0 = w\<lparr>trace := trace w @ E0\<rparr>"
    by (rule ensure_visible_split)
  then show ?thesis
    by (simp add: respondToMessage_run [OF assms refl])
qed

text \<open>
  The dispatch either sends no mutation command, or its events are those of the
  precondition, which settled, followed by the command and by what the mutator does
  after it.
\<close>

lemma dispatch_events:
  obtains (quiet) E where "snd (dispatch env p st w) = w\<lparr>trace := trace w @ E\<rparr>"
      and "\<forall>e\<in>set E. \<not> is_mutation e"
      and "count_list E SelectBranchCalled = (if hidden p \<and> has_mutator p then 1 else 0)"
    | (mutation) E0 m rest where
        "snd (dispatch env p st w) = w\<lparr>trace := trace w @ E0 @ m # rest\<rparr>"
      and "is_mutation m" and "\<forall>e\<in>set E0. \<not> is_mutation e"
      and "count_list E0 SelectBranchCalled = (if hidden p then 1 else 0)"
      and "count_list E0 SelectBranchSettled = (if hidden p then 1 else 0)"
      and "count_list rest SelectBranchCalled = 0"
      and "has_mutator p"
proof -
  obtain r0 w0 where ev: "ensure_visible env p w = (r0, w0)"
    by (cases "ensure_visible env p w")
  from ev obtain E0 where E0: "w0 = w\<lparr>trace := trace w @ E0\<rparr>"
      "\<forall>e\<in>set E0. \<not> is_mutation e \<and> e \<noteq> RefreshNodes \<and> (\<forall>n. e \<noteq> Delay n)"
      "count_list E0 SelectBranchCalled = (if hidden p then 1 else 0)"
      "r0 = Fulfilled \<longrightarrow> count_list E0 SelectBranchSettled = (if hidden p then 1 else 0)"
      "r0 = Fulfilled \<or> r0 = Suspended"
    by (rule ensure_visible_split)
  have ee: "events_of w w0 = E0" using E0(1) by simp
  consider (user) "role p = Some (utf16 ''user'')"
    | (assistant) "role p \<noteq> Some (utf16 ''user'')" "role p = Some (utf16 ''assistant'')"
    | (other) "role p \<noteq> Some (utf16 ''user'')" "role p \<noteq> Some (utf16 ''assistant'')"
    by blast
  then show thesis
  proof cases
    case other
    then have "dispatch env p st w = (Fulfilled, w)" by (simp add: dispatch_def)
    with other show thesis by (intro quiet [of "[]"]) (simp_all add: has_mutator_def)
  next
    case user
    then have d: "dispatch env p st w = editMessage env p st w" by (simp add: dispatch_def)
    show thesis
    proof (cases "r0 = Fulfilled")
      case True
      show thesis
        by (rule mutation [of E0 "Sent (EditMessage (messageId p) (inputValue st) True)"
              "after_mutation ''Edit message failed:''
                (sendMessage env (trace w0) (EditMessage (messageId p) (inputValue st) True))"])
           (use True E0 ee user in
              \<open>simp_all add: d editMessage_events [OF ev] after_mutation_no_call
                 has_mutator_def\<close>)
    next
      case False
      then have "editMessage env p st w = (r0, w0)"
        by (simp add: editMessage_run [OF ev refl])
      with False E0 user show thesis
        by (intro quiet [of E0]) (simp_all add: d has_mutator_def)
    qed
  next
    case assistant
    then have d: "dispatch env p st w = respondToMessage env p st w"
      by (simp add: dispatch_def)
    show thesis
    proof (cases "r0 = Fulfilled")
      case True
      show thesis
        by (rule mutation [of E0 "Sent (RespondToMessage (childrenIds p) (inputValue st) True)"
              "after_mutation ''Response message failed:''
                (sendMessage env (trace w0)
                   (RespondToMessage (childrenIds p) (inputValue st) True))"])
           (use True E0 ee assistant in
              \<open>simp_all add: d respondToMessage_events [OF ev] after_mutation_no_call
                 has_mutator_def\<close>)
    next
      case False
      then have "respondToMessage env p st w = (r0, w0)"
        by (simp add: respondToMessage_run [OF ev refl])
      with False E0 assistant show thesis
        by (intro quiet [of E0]) (simp_all add: d has_mutator_def)
    qed
  qed
qed

lemma dispatch_world:
  "snd (dispatch env p st w) = w\<lparr>trace := trace w @ events_of w (snd (dispatch env p st w))\<rparr>"
  by (cases rule: dispatch_events [of env p st w]) simp_all

subsection \<open>The send flow\<close>

lemma handleSend_result:
  assumes "trim (inputValue st) \<noteq> []"
    and "selectBranch env p w = (r1, w1)"
    and "dispatch env p st w1 = (r2, w2)"
  shows "handleSend env p st w =
     (if r1 = Fulfilled
      then if r2 = Fulfilled
           then (Fulfilled,
                 w2\<lparr>ui := \<lparr>showInput = False, inputValue = []\<rparr>,
                    trace := trace w2 @ [SetShowInput False, SetInputValue [], RefreshNodes]\<rparr>)
           else (r2, w2)
      else (r1, w1))"
  using assms
  by (simp add: handleSend_def setShowInput_def setInputValue_def emit_def
      split: outcome.splits)

lemma draft_nonblank: "trim (inputValue draft) \<noteq> []"
  by (simp add: draft_def utf16_def trim_def is_white_space_def)

section \<open>The claims\<close>

subsection \<open>Branch selection\<close>

text \<open>
  C1. When the node reference is present and the planner returns a plan,
  \<^verbatim>\<open>selectBranch\<close> sends \<^verbatim>\<open>executeSteps\<close> exactly once and first; if its response
  resolves with \<open>completed\<close> true, the structural-refresh notifier is called and then
  \<^verbatim>\<open>goToTarget\<close> is sent; otherwise neither the notifier nor \<^verbatim>\<open>goToTarget\<close>
  follows. The commands and refresh calls of the run, in order, are exactly these. The
  plan need not be non-empty for this.
\<close>

theorem selectBranch_order:
  assumes "messageId p = Some mid" and "mid \<noteq> []"
    and "onNodeClick env (trace w @ [SelectBranchCalled]) mid = Some steps"
    and "rep = sendMessage env (trace w @ [SelectBranchCalled, OnNodeClick mid])
                 (ExecuteSteps steps True)"
  shows "filter command_or_refresh (events_of w (snd (selectBranch env p w))) =
           Sent (ExecuteSteps steps True) #
           (if resolves_completed rep then [OnRefresh, Sent (GoToTarget (Some mid))] else [])"
  using assms
  by (simp add: sb_defs events_of_def resolves_completed_def split: reply.splits option.splits)

theorem selectBranch_order_witness:
  "messageId user_node = Some (utf16 ''m1'') \<and> utf16 ''m1'' \<noteq> [] \<and>
   onNodeClick (scripted all_done (Some [7])) (trace start @ [SelectBranchCalled]) (utf16 ''m1'') =
     Some [7] \<and>
   filter command_or_refresh
     (events_of start (snd (selectBranch (scripted all_done (Some [7])) user_node start))) =
     [Sent (ExecuteSteps [7] True), OnRefresh, Sent (GoToTarget (Some (utf16 ''m1'')))]"
proof -
  have h1: "messageId user_node = Some (utf16 ''m1'')"
    by (simp add: user_node_def)
  have h2: "utf16 ''m1'' \<noteq> []"
    by (simp add: utf16_def)
  have h3: "onNodeClick (scripted all_done (Some [7])) (trace start @ [SelectBranchCalled])
              (utf16 ''m1'') = Some [7]"
    by (simp add: scripted_def)
  show ?thesis
    using h1 h2 h3 selectBranch_order [OF h1 h2 h3 refl]
    by (simp add: scripted_def all_done_def done_response_def resolves_completed_def)
qed

text \<open>
  C3, amended. When the node reference is absent (or the empty string), and when the
  planner returns an absent plan for it, \<^verbatim>\<open>selectBranch\<close> fulfils without sending
  any command; a second call right after the first sends none either.
\<close>

theorem selectBranch_absent_plan:
  assumes "falsy (messageId p) \<or> (\<forall>h. onNodeClick env h (or_empty (messageId p)) = None)"
  shows "fst (selectBranch env p w) = Fulfilled \<and>
         sent (events_of w (snd (selectBranch env p w))) = [] \<and>
         fst (selectBranch env p (snd (selectBranch env p w))) = Fulfilled \<and>
         sent (events_of w (snd (selectBranch env p (snd (selectBranch env p w))))) = []"
  using assms
  by (auto simp: sb_defs falsy_def or_empty_def events_of_def split: option.splits)

theorem selectBranch_absent_plan_witness:
  "(falsy (messageId user_node) \<or>
    (\<forall>h. onNodeClick (scripted all_done None) h (or_empty (messageId user_node)) = None)) \<and>
   fst (selectBranch (scripted all_done None) user_node start) = Fulfilled \<and>
   sent (events_of start (snd (selectBranch (scripted all_done None) user_node start))) = [] \<and>
   fst (selectBranch (scripted all_done None) user_node
          (snd (selectBranch (scripted all_done None) user_node start))) = Fulfilled \<and>
   sent (events_of start
           (snd (selectBranch (scripted all_done None) user_node
                   (snd (selectBranch (scripted all_done None) user_node start))))) = []"
proof -
  have h: "falsy (messageId user_node) \<or>
      (\<forall>h. onNodeClick (scripted all_done None) h (or_empty (messageId user_node)) = None)"
    by (simp add: scripted_def)
  from h selectBranch_absent_plan [OF h, of start] show ?thesis
    by blast
qed

text \<open>
  A plan that is an empty array is not absent: for it \<^verbatim>\<open>selectBranch\<close> sends
  \<^verbatim>\<open>executeSteps\<close> with no steps and then \<^verbatim>\<open>goToTarget\<close>.
\<close>

theorem selectBranch_empty_plan_counterexample:
  "onNodeClick (scripted all_done (Some [])) [SelectBranchCalled] (utf16 ''m1'') = Some [] \<and>
   sent (events_of start (snd (selectBranch (scripted all_done (Some [])) user_node start))) =
     [ExecuteSteps [] True, GoToTarget (Some (utf16 ''m1''))]"
  by (simp add: sb_defs fixture_defs events_of_def)

text \<open>
  C7, amended. When a send of \<^verbatim>\<open>selectBranch\<close> rejects, the error is caught and
  logged inside \<^verbatim>\<open>selectBranch\<close>, which fulfils; nothing but the log line follows
  the rejected send, and the full refresh is never called. When the rejected send is
  \<^verbatim>\<open>executeSteps\<close>, no refresh is called at all; when it is \<^verbatim>\<open>goToTarget\<close>, the
  structural-refresh notifier has been called once, before that send.
\<close>

theorem selectBranch_transport_failure:
  assumes "messageId p = Some mid" and "mid \<noteq> []"
    and "onNodeClick env (trace w @ [SelectBranchCalled]) mid = Some steps"
    and "rep = sendMessage env (trace w @ [SelectBranchCalled, OnNodeClick mid])
                 (ExecuteSteps steps True)"
    and "rep = Rejects e \<or>
         (resolves_completed rep \<and>
          sendMessage env
            (trace w @ [SelectBranchCalled, OnNodeClick mid, Sent (ExecuteSteps steps True),
                        OnRefresh])
            (GoToTarget (Some mid)) = Rejects e)"
  shows "selectBranch env p w =
     (Fulfilled,
      w\<lparr>trace := trace w @
         [SelectBranchCalled, OnNodeClick mid, Sent (ExecuteSteps steps True)] @
         (if rep = Rejects e then [] else [OnRefresh, Sent (GoToTarget (Some mid))]) @
         [ConsoleError ''Error executing steps:'' (Caught e), SelectBranchSettled]\<rparr>)"
  using assms
  by (auto simp: sb_defs resolves_completed_def split: reply.splits option.splits)

theorem selectBranch_transport_failure_witness:
  "messageId user_node = Some (utf16 ''m1'') \<and> utf16 ''m1'' \<noteq> [] \<and>
   sendMessage (scripted all_rejected (Some [7]))
     (trace start @ [SelectBranchCalled, OnNodeClick (utf16 ''m1'')]) (ExecuteSteps [7] True) =
     Rejects (ChannelRejected (utf16 ''no receiver'')) \<and>
   selectBranch (scripted all_rejected (Some [7])) user_node start =
     (Fulfilled,
      start\<lparr>trace :=
        [SelectBranchCalled, OnNodeClick (utf16 ''m1''), Sent (ExecuteSteps [7] True),
         ConsoleError ''Error executing steps:''
           (Caught (ChannelRejected (utf16 ''no receiver''))),
         SelectBranchSettled]\<rparr>)"
proof -
  have h1: "messageId user_node = Some (utf16 ''m1'')"
    by (simp add: user_node_def)
  have h2: "utf16 ''m1'' \<noteq> []"
    by (simp add: utf16_def)
  have h3: "onNodeClick (scripted all_rejected (Some [7])) (trace start @ [SelectBranchCalled])
              (utf16 ''m1'') = Some [7]"
    by (simp add: scripted_def)
  have h4: "sendMessage (scripted all_rejected (Some [7]))
      (trace start @ [SelectBranchCalled, OnNodeClick (utf16 ''m1'')]) (ExecuteSteps [7] True) =
      Rejects (ChannelRejected (utf16 ''no receiver''))"
    by (simp add: scripted_def all_rejected_def)
  have h5: "Rejects (ChannelRejected (utf16 ''no receiver'')) =
        Rejects (ChannelRejected (utf16 ''no receiver'')) \<or>
      (resolves_completed (Rejects (ChannelRejected (utf16 ''no receiver''))) \<and>
       sendMessage (scripted all_rejected (Some [7]))
         (trace start @ [SelectBranchCalled, OnNodeClick (utf16 ''m1''),
                         Sent (ExecuteSteps [7] True), OnRefresh])
         (GoToTarget (Some (utf16 ''m1''))) = Rejects (ChannelRejected (utf16 ''no receiver'')))"
    by simp
  show ?thesis
    using h1 h2 h4 selectBranch_transport_failure [OF h1 h2 h3 h4 [symmetric] h5]
    by (simp add: start_def)
qed

text \<open>
  A rejected \<^verbatim>\<open>goToTarget\<close> comes after the structural-refresh notifier: the
  notifier is among the events of the run.
\<close>

theorem selectBranch_goto_rejected_counterexample:
  "sendMessage (scripted goto_rejected (Some [7]))
     [SelectBranchCalled, OnNodeClick (utf16 ''m1''), Sent (ExecuteSteps [7] True), OnRefresh]
     (GoToTarget (Some (utf16 ''m1''))) = Rejects (ChannelRejected (utf16 ''no receiver'')) \<and>
   events_of start (snd (selectBranch (scripted goto_rejected (Some [7])) user_node start)) =
     [SelectBranchCalled, OnNodeClick (utf16 ''m1''), Sent (ExecuteSteps [7] True), OnRefresh,
      Sent (GoToTarget (Some (utf16 ''m1''))),
      ConsoleError ''Error executing steps:'' (Caught (ChannelRejected (utf16 ''no receiver''))),
      SelectBranchSettled]"
  by (simp add: sb_defs fixture_defs events_of_def)

subsection \<open>The mutators\<close>

text \<open>
  C5. When the response to the mutation command resolves with \<open>completed\<close> false,
  \<^verbatim>\<open>editMessage\<close> and \<^verbatim>\<open>respondToMessage\<close> log the failure and stop: the log
  line is the last event, the handler fulfils, and neither the full refresh nor the
  settle delay occurs in the run. \<open>w0\<close> is the world after the precondition of the
  mutator (the branch selection of a hidden node) has settled.
\<close>

theorem mutation_not_completed:
  assumes "ensure_visible env p w = (Fulfilled, w0)"
    and "\<not> completed r"
  shows "(sendMessage env (trace w0) (EditMessage (messageId p) (inputValue st) True) =
            Resolves (Some r) \<longrightarrow>
            editMessage env p st w =
              (Fulfilled,
               w0\<lparr>trace := trace w0 @
                  [Sent (EditMessage (messageId p) (inputValue st) True),
                   ConsoleError ''Edit message failed:'' (Field (error r))]\<rparr>) \<and>
            RefreshNodes \<notin> set (events_of w (snd (editMessage env p st w))) \<and>
            (\<forall>n. Delay n \<notin> set (events_of w (snd (editMessage env p st w))))) \<and>
         (sendMessage env (trace w0) (RespondToMessage (childrenIds p) (inputValue st) True) =
            Resolves (Some r) \<longrightarrow>
            respondToMessage env p st w =
              (Fulfilled,
               w0\<lparr>trace := trace w0 @
                  [Sent (RespondToMessage (childrenIds p) (inputValue st) True),
                   ConsoleError ''Response message failed:'' (Field (error r))]\<rparr>) \<and>
            RefreshNodes \<notin> set (events_of w (snd (respondToMessage env p st w))) \<and>
            (\<forall>n. Delay n \<notin> set (events_of w (snd (respondToMessage env p st w)))))"
proof -
  from assms(1) obtain E0 where w0: "w0 = w\<lparr>trace := trace w @ E0\<rparr>"
    and E0: "\<forall>e\<in>set E0. \<not> is_mutation e \<and> e \<noteq> RefreshNodes \<and> (\<forall>n. e \<noteq> Delay n)"
    by (rule ensure_visible_split)
  have edit: "editMessage env p st w =
              (Fulfilled,
               w0\<lparr>trace := trace w0 @
                  [Sent (EditMessage (messageId p) (inputValue st) True),
                   ConsoleError ''Edit message failed:'' (Field (error r))]\<rparr>)"
    if "sendMessage env (trace w0) (EditMessage (messageId p) (inputValue st) True) =
          Resolves (Some r)"
    using that assms(2) by (simp add: editMessage_run [OF assms(1) refl] after_mutation_def)
  have respond: "respondToMessage env p st w =
              (Fulfilled,
               w0\<lparr>trace := trace w0 @
                  [Sent (RespondToMessage (childrenIds p) (inputValue st) True),
                   ConsoleError ''Response message failed:'' (Field (error r))]\<rparr>)"
    if "sendMessage env (trace w0) (RespondToMessage (childrenIds p) (inputValue st) True) =
          Resolves (Some r)"
    using that assms(2) by (simp add: respondToMessage_run [OF assms(1) refl] after_mutation_def)
  show ?thesis
    using E0 by (auto simp: edit respond w0)
qed

theorem mutation_not_completed_witness:
  "ensure_visible (scripted mutation_failed (Some [7])) user_node start = (Fulfilled, start) \<and>
   \<not> completed failed_response \<and>
   sendMessage (scripted mutation_failed (Some [7])) (trace start)
     (EditMessage (messageId user_node) (inputValue draft) True) =
     Resolves (Some failed_response) \<and>
   editMessage (scripted mutation_failed (Some [7])) user_node draft start =
     (Fulfilled,
      start\<lparr>trace := trace start @
         [Sent (EditMessage (messageId user_node) (inputValue draft) True),
          ConsoleError ''Edit message failed:'' (Field (error failed_response))]\<rparr>) \<and>
   RefreshNodes \<notin>
     set (events_of start
            (snd (editMessage (scripted mutation_failed (Some [7])) user_node draft start))) \<and>
   (\<forall>n. Delay n \<notin>
     set (events_of start
            (snd (editMessage (scripted mutation_failed (Some [7])) user_node draft start))))"
proof -
  have h1: "ensure_visible (scripted mutation_failed (Some [7])) user_node start =
              (Fulfilled, start)"
    by (simp add: ensure_visible_def user_node_def)
  have h2: "\<not> completed failed_response"
    by (simp add: failed_response_def)
  have h3: "sendMessage (scripted mutation_failed (Some [7])) (trace start)
      (EditMessage (messageId user_node) (inputValue draft) True) =
      Resolves (Some failed_response)"
    by (simp add: scripted_def)
  from h1 h2 h3 mutation_not_completed [OF h1 h2, of draft] show ?thesis
    by blast
qed

subsection \<open>The send flow\<close>

text \<open>
  C8. For a draft that is empty or consists of white space only, \<^verbatim>\<open>handleSend\<close>
  returns at once: no command is sent and the state, with the open input and the draft,
  is as it was.
\<close>

theorem handleSend_blank_draft:
  assumes "\<forall>c\<in>set (inputValue st). is_white_space c"
  shows "handleSend env p st w = (Fulfilled, w) \<and>
         sent (events_of w (snd (handleSend env p st w))) = []"
  using assms by (simp add: handleSend_def trim_empty_iff)

theorem handleSend_blank_draft_witness:
  "inputValue (draft\<lparr>inputValue := utf16 ''   ''\<rparr>) = [0x20, 0x20, 0x20] \<and>
   handleSend (scripted all_done (Some [7])) user_node
     (draft\<lparr>inputValue := utf16 ''   ''\<rparr>) start = (Fulfilled, start) \<and>
   sent (events_of start
           (snd (handleSend (scripted all_done (Some [7])) user_node
                   (draft\<lparr>inputValue := utf16 ''   ''\<rparr>) start))) = []"
proof -
  have h: "\<forall>c\<in>set (inputValue (draft\<lparr>inputValue := utf16 ''   ''\<rparr>)). is_white_space c"
    by (simp add: draft_def utf16_def is_white_space_def)
  have v: "inputValue (draft\<lparr>inputValue := utf16 ''   ''\<rparr>) = [0x20, 0x20, 0x20]"
    by (simp add: utf16_def)
  from v handleSend_blank_draft [OF h, of "scripted all_done (Some [7])" user_node start]
  show ?thesis by blast
qed

text \<open>
  C2, amended. For a draft that is not blank after trimming, \<^verbatim>\<open>handleSend\<close> begins
  by calling \<^verbatim>\<open>selectBranch\<close>. In the whole run \<^verbatim>\<open>selectBranch\<close> is called
  exactly once when the node is not hidden, and also when the role has no mutator or
  the first call does not settle; it is called exactly twice when the node is hidden,
  the role is user or assistant and the first call settled, the second call being the
  one of the mutator. Whenever a mutation command is sent, all these calls were made
  and have settled before it: one when the node is not hidden, two when it is.
\<close>

theorem handleSend_select_before_mutation:
  assumes "trim (inputValue st) \<noteq> []"
  shows "hd (events_of w (snd (handleSend env p st w))) = SelectBranchCalled \<and>
         count_list (events_of w (snd (handleSend env p st w))) SelectBranchCalled =
           (if hidden p \<and> has_mutator p \<and> fst (selectBranch env p w) = Fulfilled
            then 2 else 1) \<and>
         ((\<exists>e\<in>set (events_of w (snd (handleSend env p st w))). is_mutation e) \<longrightarrow>
          count_list (events_of w (snd (handleSend env p st w))) SelectBranchCalled =
            (if hidden p then 2 else 1) \<and>
          count_list (before_mutation (events_of w (snd (handleSend env p st w))))
            SelectBranchCalled = (if hidden p then 2 else 1) \<and>
          count_list (before_mutation (events_of w (snd (handleSend env p st w))))
            SelectBranchSettled = (if hidden p then 2 else 1))"
proof -
  obtain r1 w1 where sb: "selectBranch env p w = (r1, w1)"
    by (cases "selectBranch env p w")
  obtain r2 w2 where di: "dispatch env p st w1 = (r2, w2)"
    by (cases "dispatch env p st w1")
  define E1 where "E1 = events_of w w1"
  have w1: "w1 = w\<lparr>trace := trace w @ E1\<rparr>"
    using selectBranch_world [of env p w] sb by (simp add: E1_def)
  have clean1: "\<forall>e\<in>set E1. \<not> is_mutation e"
    using selectBranch_no_mutation [of _ w env p] sb by (auto simp: E1_def)
  have called1: "count_list E1 SelectBranchCalled = 1"
    using selectBranch_called [of w env p] sb by (simp add: E1_def)
  have settled1: "count_list E1 SelectBranchSettled = (if r1 = Suspended then 0 else 1)"
    using selectBranch_settled [of w env p] sb by (simp add: E1_def)
  have first1: "E1 \<noteq> []" "hd E1 = SelectBranchCalled"
    using selectBranch_first [of w env p] sb by (simp_all add: E1_def)
  have r1: "fst (selectBranch env p w) = r1"
    using sb by simp
  note hs = handleSend_result [OF assms sb di]
  show ?thesis
  proof (cases "r1 = Fulfilled")
    case False
    with hs w1 have "events_of w (snd (handleSend env p st w)) = E1" by simp
    with clean1 first1 called1 False show ?thesis by (simp add: r1)
  next
    case True
    show ?thesis
    proof (cases rule: dispatch_events [of env p st w1])
      case (quiet E)
      with di have w2: "w2 = w1\<lparr>trace := trace w1 @ E\<rparr>" by simp
      define tail where
        "tail = (if r2 = Fulfilled
                 then E @ [SetShowInput False, SetInputValue [], RefreshNodes]
                 else E)"
      have ev: "events_of w (snd (handleSend env p st w)) = E1 @ tail"
        using hs True w1 w2 by (simp add: tail_def events_of_def)
      have clean: "\<forall>e\<in>set tail. \<not> is_mutation e"
        using quiet(2) by (auto simp: tail_def)
      have "count_list tail SelectBranchCalled = (if hidden p \<and> has_mutator p then 1 else 0)"
        using quiet(3) by (simp add: tail_def)
      with clean clean1 first1 called1 True show ?thesis
        by (auto simp: ev r1)
    next
      case (mutation E0 m rest)
      with di have w2: "w2 = w1\<lparr>trace := trace w1 @ E0 @ m # rest\<rparr>" by simp
      define tail where
        "tail = (if r2 = Fulfilled
                 then rest @ [SetShowInput False, SetInputValue [], RefreshNodes]
                 else rest)"
      have ev: "events_of w (snd (handleSend env p st w)) = (E1 @ E0) @ m # tail"
        using hs True w1 w2 by (simp add: tail_def events_of_def)
      have before: "before_mutation (events_of w (snd (handleSend env p st w))) = E1 @ E0"
        using clean1 mutation(2,3) by (simp add: ev before_mutation_def)
      have first: "hd (events_of w (snd (handleSend env p st w))) = SelectBranchCalled"
        using first1 by (simp add: ev)
      have "m \<noteq> SelectBranchCalled"
        using mutation(2) by auto
      moreover have "count_list tail SelectBranchCalled = 0"
        using mutation(6) by (simp add: tail_def)
      ultimately have whole:
        "count_list (events_of w (snd (handleSend env p st w))) SelectBranchCalled =
           (if hidden p then 2 else 1)"
        using called1 mutation(4) by (simp add: ev)
      show ?thesis
        using first whole called1 settled1 True mutation(4,5,7) by (simp add: before r1)
    qed
  qed
qed

theorem handleSend_select_before_mutation_witness:
  "trim (inputValue draft) \<noteq> [] \<and>
   hd (events_of start (snd (handleSend (scripted all_done (Some [7])) user_node draft start))) =
     SelectBranchCalled \<and>
   count_list
     (events_of start (snd (handleSend (scripted all_done (Some [7])) user_node draft start)))
     SelectBranchCalled = 1 \<and>
   (\<exists>e\<in>set (events_of start
              (snd (handleSend (scripted all_done (Some [7])) user_node draft start))).
      is_mutation e) \<and>
   count_list
     (before_mutation
        (events_of start (snd (handleSend (scripted all_done (Some [7])) user_node draft start))))
     SelectBranchCalled = 1 \<and>
   count_list
     (before_mutation
        (events_of start (snd (handleSend (scripted all_done (Some [7])) user_node draft start))))
     SelectBranchSettled = 1"
proof -
  have h2: "\<exists>e\<in>set (events_of start
              (snd (handleSend (scripted all_done (Some [7])) user_node draft start))).
      is_mutation e"
    by (simp add: run_defs fixture_defs events_of_def trim_def is_white_space_def)
  have nh: "\<not> hidden user_node"
    by (simp add: user_node_def)
  show ?thesis
    using draft_nonblank h2 nh
      handleSend_select_before_mutation
        [OF draft_nonblank, of start "scripted all_done (Some [7])" user_node]
    by simp
qed

text \<open>
  With a hidden node the branch selector is called twice, both times before the
  mutation command.
\<close>

theorem handleSend_select_twice_counterexample:
  "hidden (user_node\<lparr>hidden := True\<rparr>) \<and>
   count_list
     (events_of start
        (snd (handleSend (scripted all_done (Some [7])) (user_node\<lparr>hidden := True\<rparr>)
                draft start)))
     SelectBranchCalled = 2 \<and>
   count_list
     (before_mutation
        (events_of start
           (snd (handleSend (scripted all_done (Some [7])) (user_node\<lparr>hidden := True\<rparr>)
                   draft start))))
     SelectBranchCalled = 2"
  by (simp add: run_defs fixture_defs events_of_def trim_def is_white_space_def
      before_mutation_def)

text \<open>
  C4, amended. The send flow for a node of role user that is not hidden, with a draft
  that is not blank, a planner returning one step, the responses to
  \<^verbatim>\<open>executeSteps\<close> and \<^verbatim>\<open>editMessage\<close> resolving with \<open>completed\<close> true and
  the send of \<^verbatim>\<open>goToTarget\<close> settling: the run is, in order, the planner call,
  \<^verbatim>\<open>executeSteps\<close>, the structural refresh, \<^verbatim>\<open>goToTarget\<close> (with a log line
  when it rejected), \<^verbatim>\<open>editMessage\<close>, the delay of 2000 ms, the full refresh, the
  two setters closing the input and emptying the draft, and the full refresh again.
\<close>

theorem handleSend_user_scenario:
  assumes "trim (inputValue st) \<noteq> []"
    and "role p = Some (utf16 ''user'')"
    and "messageId p = Some mid" and "mid \<noteq> []"
    and "\<not> hidden p"
    and "onNodeClick env (trace w @ [SelectBranchCalled]) mid = Some [s]"
    and "resolves_completed
           (sendMessage env (trace w @ [SelectBranchCalled, OnNodeClick mid])
              (ExecuteSteps [s] True))"
    and "g = sendMessage env
           (trace w @ [SelectBranchCalled, OnNodeClick mid, Sent (ExecuteSteps [s] True),
                       OnRefresh])
           (GoToTarget (Some mid))"
    and "g \<noteq> NeverSettles"
    and "resolves_completed
           (sendMessage env
              (trace w @ [SelectBranchCalled, OnNodeClick mid, Sent (ExecuteSteps [s] True),
                          OnRefresh, Sent (GoToTarget (Some mid))] @ goto_log g @
                         [SelectBranchSettled])
              (EditMessage (Some mid) (inputValue st) True))"
  shows "handleSend env p st w =
     (Fulfilled,
      \<lparr>ui = \<lparr>showInput = False, inputValue = []\<rparr>,
       trace = trace w @
         [SelectBranchCalled, OnNodeClick mid, Sent (ExecuteSteps [s] True), OnRefresh,
          Sent (GoToTarget (Some mid))] @ goto_log g @
         [SelectBranchSettled, Sent (EditMessage (Some mid) (inputValue st) True), Delay 2000,
          RefreshNodes, SetShowInput False, SetInputValue [], RefreshNodes]\<rparr>)"
proof -
  define w1 where "w1 = w\<lparr>trace := trace w @
         [SelectBranchCalled, OnNodeClick mid, Sent (ExecuteSteps [s] True), OnRefresh,
          Sent (GoToTarget (Some mid))] @ goto_log g @ [SelectBranchSettled]\<rparr>"
  have sb: "selectBranch env p w = (Fulfilled, w1)"
    unfolding w1_def using assms(3,4,6,7,8,9) by (rule selectBranch_completed)
  have ev: "ensure_visible env p w1 = (Fulfilled, w1)"
    using assms(5) by (simp add: ensure_visible_def)
  from assms(10) obtain r where
    r: "sendMessage env (trace w1) (EditMessage (Some mid) (inputValue st) True) =
          Resolves (Some r)"
       "completed r"
    by (auto simp: w1_def resolves_completed_def split: reply.splits option.splits)
  have em: "editMessage env p st w1 =
      (Fulfilled,
       w1\<lparr>trace := trace w1 @
          [Sent (EditMessage (Some mid) (inputValue st) True), Delay 2000, RefreshNodes]\<rparr>)"
    using editMessage_run [OF ev refl, of st] r assms(3)
    by (simp add: after_mutation_def)
  have "handleSend env p st w =
      (Fulfilled,
       emit RefreshNodes (setInputValue [] (setShowInput False
         (w1\<lparr>trace := trace w1 @
            [Sent (EditMessage (Some mid) (inputValue st) True), Delay 2000,
             RefreshNodes]\<rparr>))))"
    using assms(1,2) by (simp add: handleSend_def dispatch_def sb em)
  then show ?thesis
    by (simp add: setShowInput_def setInputValue_def emit_def w1_def)
qed

theorem handleSend_user_scenario_witness:
  "trim (inputValue draft) \<noteq> [] \<and> role user_node = Some (utf16 ''user'') \<and>
   \<not> hidden user_node \<and>
   handleSend (scripted all_done (Some [7])) user_node draft start =
     (Fulfilled,
      \<lparr>ui = \<lparr>showInput = False, inputValue = []\<rparr>,
       trace =
         [SelectBranchCalled, OnNodeClick (utf16 ''m1''), Sent (ExecuteSteps [7] True),
          OnRefresh, Sent (GoToTarget (Some (utf16 ''m1''))), SelectBranchSettled,
          Sent (EditMessage (Some (utf16 ''m1'')) (inputValue draft) True), Delay 2000,
          RefreshNodes, SetShowInput False, SetInputValue [], RefreshNodes]\<rparr>)"
proof -
  have h2: "role user_node = Some (utf16 ''user'')"
    by (simp add: user_node_def)
  have h3: "messageId user_node = Some (utf16 ''m1'')"
    by (simp add: user_node_def)
  have h4: "utf16 ''m1'' \<noteq> []"
    by (simp add: utf16_def)
  have h5: "\<not> hidden user_node"
    by (simp add: user_node_def)
  have h6: "onNodeClick (scripted all_done (Some [7])) (trace start @ [SelectBranchCalled])
              (utf16 ''m1'') = Some [7]"
    by (simp add: scripted_def)
  have h7: "resolves_completed
      (sendMessage (scripted all_done (Some [7]))
         (trace start @ [SelectBranchCalled, OnNodeClick (utf16 ''m1'')])
         (ExecuteSteps [7] True))"
    by (simp add: scripted_def all_done_def done_response_def resolves_completed_def)
  have h8: "Resolves (Some done_response) =
      sendMessage (scripted all_done (Some [7]))
        (trace start @ [SelectBranchCalled, OnNodeClick (utf16 ''m1''),
                        Sent (ExecuteSteps [7] True), OnRefresh])
        (GoToTarget (Some (utf16 ''m1'')))"
    by (simp add: scripted_def all_done_def)
  have h9: "Resolves (Some done_response) \<noteq> NeverSettles"
    by simp
  have h10: "resolves_completed
      (sendMessage (scripted all_done (Some [7]))
         (trace start @ [SelectBranchCalled, OnNodeClick (utf16 ''m1''),
                         Sent (ExecuteSteps [7] True), OnRefresh,
                         Sent (GoToTarget (Some (utf16 ''m1'')))] @
            goto_log (Resolves (Some done_response)) @ [SelectBranchSettled])
         (EditMessage (Some (utf16 ''m1'')) (inputValue draft) True))"
    by (simp add: scripted_def all_done_def done_response_def resolves_completed_def)
  show ?thesis
    using draft_nonblank h2 h5
      handleSend_user_scenario [OF draft_nonblank h2 h3 h4 h5 h6 h7 h8 h9 h10]
    by (simp add: goto_log_def start_def)
qed

text \<open>
  With a hidden node and the same planner, \<^verbatim>\<open>executeSteps\<close> and \<^verbatim>\<open>goToTarget\<close>
  are sent twice before \<^verbatim>\<open>editMessage\<close>.
\<close>

theorem handleSend_hidden_counterexample:
  "sent (events_of start
           (snd (handleSend (scripted all_done (Some [7])) (user_node\<lparr>hidden := True\<rparr>)
                   draft start))) =
     [ExecuteSteps [7] True, GoToTarget (Some (utf16 ''m1'')),
      ExecuteSteps [7] True, GoToTarget (Some (utf16 ''m1'')),
      EditMessage (Some (utf16 ''m1'')) (utf16 ''fixed text'') True]"
  by (simp add: run_defs fixture_defs events_of_def trim_def is_white_space_def)

text \<open>
  C6, amended. In \<^verbatim>\<open>handleSend\<close>, whenever the call of the role-specific mutator
  returns (also when the mutation response had \<open>completed\<close> false), the input is closed
  and the draft emptied, and the full refresh is then called once more, in addition to
  any full refresh made inside the mutator. By \<open>mutator_returns\<close> the mutator returns
  exactly when its send resolves with a response object; a send that rejects ends
  \<^verbatim>\<open>handleSend\<close> before the two setters.
\<close>

theorem handleSend_cleanup:
  assumes "trim (inputValue st) \<noteq> []"
    and "selectBranch env p w = (Fulfilled, w1)"
    and "dispatch env p st w1 = (Fulfilled, w2)"
  shows "handleSend env p st w =
           (Fulfilled,
            w2\<lparr>ui := \<lparr>showInput = False, inputValue = []\<rparr>,
               trace := trace w2 @ [SetShowInput False, SetInputValue [], RefreshNodes]\<rparr>) \<and>
         count_list (events_of w (snd (handleSend env p st w))) RefreshNodes =
           count_list (events_of w1 w2) RefreshNodes + 1"
proof -
  define E1 where "E1 = events_of w w1"
  have w1: "w1 = w\<lparr>trace := trace w @ E1\<rparr>"
    using selectBranch_world [of env p w] assms(2) by (simp add: E1_def)
  have "RefreshNodes \<notin> set E1"
    using selectBranch_no_full_refresh [of RefreshNodes w env p] assms(2)
    by (auto simp: E1_def)
  then have none1: "count_list E1 RefreshNodes = 0"
    by (simp add: count_list_0_iff)
  define E2 where "E2 = events_of w1 w2"
  have w2: "w2 = w1\<lparr>trace := trace w1 @ E2\<rparr>"
    using dispatch_world [of env p st w1] assms(3) by (simp add: E2_def)
  have hs: "handleSend env p st w =
           (Fulfilled,
            w2\<lparr>ui := \<lparr>showInput = False, inputValue = []\<rparr>,
               trace := trace w2 @ [SetShowInput False, SetInputValue [], RefreshNodes]\<rparr>)"
    using handleSend_result [OF assms] by simp
  moreover have "count_list (events_of w (snd (handleSend env p st w))) RefreshNodes =
           count_list (events_of w1 w2) RefreshNodes + 1"
    using none1 by (simp add: hs w1 w2 events_of_def)
  ultimately show ?thesis by blast
qed

theorem handleSend_cleanup_witness:
  "trim (inputValue draft) \<noteq> [] \<and>
   selectBranch (scripted mutation_failed (Some [7])) user_node start = (Fulfilled, selected) \<and>
   dispatch (scripted mutation_failed (Some [7])) user_node draft selected =
     (Fulfilled, edit_failed) \<and>
   handleSend (scripted mutation_failed (Some [7])) user_node draft start =
     (Fulfilled,
      edit_failed\<lparr>ui := \<lparr>showInput = False, inputValue = []\<rparr>,
         trace := trace edit_failed @ [SetShowInput False, SetInputValue [], RefreshNodes]\<rparr>) \<and>
   count_list
     (events_of start
        (snd (handleSend (scripted mutation_failed (Some [7])) user_node draft start)))
     RefreshNodes = count_list (events_of selected edit_failed) RefreshNodes + 1"
proof -
  have h2: "selectBranch (scripted mutation_failed (Some [7])) user_node start =
              (Fulfilled, selected)"
    by (simp add: sb_defs fixture_defs selected_def)
  have h3: "dispatch (scripted mutation_failed (Some [7])) user_node draft selected =
              (Fulfilled, edit_failed)"
    by (simp add: dispatch_def editMessage_def ensure_visible_def send_def emit_def
        fixture_defs selected_def edit_failed_def)
  from draft_nonblank h2 h3 handleSend_cleanup [OF draft_nonblank h2 h3] show ?thesis
    by blast
qed

text \<open>
  When the send of the mutation command rejects, \<^verbatim>\<open>handleSend\<close> rejects with it:
  the state is not cleared and the full refresh is not called.
\<close>

theorem handleSend_mutation_rejected_counterexample:
  "trim (inputValue draft) \<noteq> [] \<and>
   handleSend (scripted mutation_rejected (Some [7])) user_node draft start =
     (Rejected (ChannelRejected (utf16 ''no receiver'')),
      \<lparr>ui = \<lparr>showInput = True, inputValue = utf16 ''fixed text''\<rparr>,
       trace =
         [SelectBranchCalled, OnNodeClick (utf16 ''m1''), Sent (ExecuteSteps [7] True),
          OnRefresh, Sent (GoToTarget (Some (utf16 ''m1''))), SelectBranchSettled,
          Sent (EditMessage (Some (utf16 ''m1'')) (utf16 ''fixed text'') True)]\<rparr>)"
  by (simp add: run_defs fixture_defs trim_def is_white_space_def)

subsection \<open>Subchats and the input\<close>

text \<open>
  C9. When the response to \<^verbatim>\<open>createSubchat\<close> resolves with \<open>success\<close> false, and
  when the send rejects, \<^verbatim>\<open>startSubchat\<close> fulfils, opens no tab and does nothing
  after the send but log the rejection.
\<close>

theorem startSubchat_failure:
  assumes "rep = sendMessage env (trace w) (CreateSubchat (messageId p))"
    and "(\<exists>r. rep = Resolves (Some r) \<and> \<not> success r) \<or> (\<exists>e. rep = Rejects e)"
  shows "startSubchat env p w =
     (Fulfilled,
      w\<lparr>trace := trace w @ Sent (CreateSubchat (messageId p)) #
         (case rep of
            Rejects e \<Rightarrow> [ConsoleError ''Error starting subchat:'' (Caught e)]
          | _ \<Rightarrow> [])\<rparr>)"
  using assms
  by (auto simp: startSubchat_def startSubchat_try_def send_def emit_def)

theorem startSubchat_failure_witness:
  "((\<exists>r. sendMessage (scripted all_failed None) (trace start)
            (CreateSubchat (messageId user_node)) = Resolves (Some r) \<and> \<not> success r) \<or>
    (\<exists>e. sendMessage (scripted all_failed None) (trace start)
            (CreateSubchat (messageId user_node)) = Rejects e)) \<and>
   startSubchat (scripted all_failed None) user_node start =
     (Fulfilled, start\<lparr>trace := [Sent (CreateSubchat (Some (utf16 ''m1'')))]\<rparr>)"
proof -
  have h: "(\<exists>r. sendMessage (scripted all_failed None) (trace start)
            (CreateSubchat (messageId user_node)) = Resolves (Some r) \<and> \<not> success r) \<or>
    (\<exists>e. sendMessage (scripted all_failed None) (trace start)
            (CreateSubchat (messageId user_node)) = Rejects e)"
    by (simp add: scripted_def all_failed_def failed_response_def)
  show ?thesis
    using h startSubchat_failure [OF refl h]
    by (simp add: scripted_def all_failed_def start_def user_node_def)
qed

text \<open>
  C10. \<^verbatim>\<open>handleActionClick\<close> shows the input and sets the draft from the props
  alone: to the message of the node (the empty string when it is absent) when the role
  is user, to the empty string for any other role. It is the draft the initialiser of
  the state gives.
\<close>

theorem handleActionClick_draft:
  "ui (handleActionClick p w) =
     \<lparr>showInput = True,
      inputValue = (if role p = Some (utf16 ''user'')
                    then (case message p of None \<Rightarrow> [] | Some m \<Rightarrow> m) else [])\<rparr> \<and>
   inputValue (initial_state p) = inputValue (ui (handleActionClick p w))"
  by (simp add: handleActionClick_def initial_state_def setShowInput_def setInputValue_def
      emit_def or_empty_def split: option.splits)

end
